theory Spec2Isabelle
  imports Main
begin

section \<open>Python values\<close>

text \<open>
  The adapter in \<^verbatim>\<open>runehistory/framework/services/mongo.py\<close> works on plain Python
  values: records, conditions, filters and projections are nested lists and dicts.
  Keys of a dict are hashable, so they have a type of their own; a list or a dict used as
  a key raises \<^verbatim>\<open>TypeError\<close>. A \<^verbatim>\<open>bson.ObjectId\<close> is kept by its hexadecimal string, which
  is what \<^verbatim>\<open>str\<close> returns for it. A dict is an association list in insertion order.
  Python takes \<^verbatim>\<open>True\<close> and \<^verbatim>\<open>1\<close> for one key; they are two keys here. Every key that
  the adapter looks up or compares is a string, and a string equals no other kind of
  value, so the difference shows only in a dict that holds both.
\<close>

datatype pykey = KNone | KBool bool | KInt int | KStr string | KObjectId string

datatype pyval =
    PNone
  | PBool bool
  | PInt int
  | PStr string
  | PObjectId string
  | PList "pyval list"
  | PDict "(pykey \<times> pyval) list"

type_synonym pydict = "(pykey \<times> pyval) list"

text \<open>Exceptions of the pymongo driver, and the exceptions that leave the adapter.\<close>

datatype backend_exn = DuplicateKeyError | OtherBackendError string

datatype error =
    KeyError string
  | IndexError
  | TypeError
  | UnhandledCondition
  | DuplicateError string
  | ValueError string
  | Raw backend_exn

text \<open>Hashing a value for use as a key: lists and dicts are unhashable.\<close>

fun as_key :: "pyval \<Rightarrow> pykey option" where
  "as_key PNone = Some KNone"
| "as_key (PBool b) = Some (KBool b)"
| "as_key (PInt i) = Some (KInt i)"
| "as_key (PStr s) = Some (KStr s)"
| "as_key (PObjectId h) = Some (KObjectId h)"
| "as_key (PList xs) = None"
| "as_key (PDict d) = None"

fun of_key :: "pykey \<Rightarrow> pyval" where
  "of_key KNone = PNone"
| "of_key (KBool b) = PBool b"
| "of_key (KInt i) = PInt i"
| "of_key (KStr s) = PStr s"
| "of_key (KObjectId h) = PObjectId h"

text \<open>Truthiness, as \<^verbatim>\<open>if not x\<close> tests it.\<close>

fun truthy :: "pyval \<Rightarrow> bool" where
  "truthy PNone = False"
| "truthy (PBool b) = b"
| "truthy (PInt i) = (i \<noteq> 0)"
| "truthy (PStr s) = (s \<noteq> [])"
| "truthy (PObjectId h) = True"
| "truthy (PList xs) = (xs \<noteq> [])"
| "truthy (PDict d) = (d \<noteq> [])"

subsection \<open>Dict operations\<close>

definition dict_get :: "pydict \<Rightarrow> pykey \<Rightarrow> pyval option" where
  "dict_get d k = map_of d k"

definition dict_in :: "pykey \<Rightarrow> pydict \<Rightarrow> bool" where
  "dict_in k d = (dict_get d k \<noteq> None)"

text \<open>\<^verbatim>\<open>d[k] = v\<close>: an existing key keeps its place, a new key goes last.\<close>

fun dict_set :: "pydict \<Rightarrow> pykey \<Rightarrow> pyval \<Rightarrow> pydict" where
  "dict_set [] k v = [(k, v)]"
| "dict_set ((k', v') # d) k v =
     (if k' = k then (k, v) # d else (k', v') # dict_set d k v)"

text \<open>The dict left by \<^verbatim>\<open>d.pop(k)\<close>.\<close>

definition dict_pop :: "pydict \<Rightarrow> pykey \<Rightarrow> pydict" where
  "dict_pop d k = filter (\<lambda>kv. fst kv \<noteq> k) d"

text \<open>\<^verbatim>\<open>d.update(e)\<close>.\<close>

fun dict_update :: "pydict \<Rightarrow> pydict \<Rightarrow> pydict" where
  "dict_update d [] = d"
| "dict_update d ((k, v) # e) = dict_update (dict_set d k v) e"

text \<open>
  Python compares dicts without regard to insertion order: two dicts are equal when
  they hold the same keys with equal values.
\<close>

definition dict_equal :: "pydict \<Rightarrow> pydict \<Rightarrow> bool" where
  "dict_equal a b = (map_of a = map_of b)"

section \<open>Identifier mapping of records\<close>

text \<open>\<^verbatim>\<open>isinstance(v, ObjectId)\<close>.\<close>

fun is_object_id :: "pyval \<Rightarrow> bool" where
  "is_object_id (PObjectId h) = True"
| "is_object_id v = False"

text \<open>
  \<^verbatim>\<open>self.identifier\<close> is a string or \<^verbatim>\<open>None\<close>; \<^verbatim>\<open>if self.identifier\<close> is false for
  \<^verbatim>\<open>None\<close> and for the empty string.
\<close>

definition identifier_set :: "string option \<Rightarrow> bool" where
  "identifier_set identifier = (case identifier of None \<Rightarrow> False | Some i \<Rightarrow> i \<noteq> [])"

definition record_to_id :: "string option \<Rightarrow> pydict \<Rightarrow> pydict" where
  "record_to_id identifier record =
     (if identifier_set identifier \<and> dict_in (KStr (the identifier)) record
      then dict_set (dict_pop record (KStr (the identifier))) (KStr ''_id'')
             (the (dict_get record (KStr (the identifier))))
      else record)"

definition stringify_id :: "pydict \<Rightarrow> pydict" where
  "stringify_id record =
     (case dict_get record (KStr ''_id'') of
        Some (PObjectId h) \<Rightarrow> dict_set record (KStr ''_id'') (PStr h)
      | _ \<Rightarrow> record)"

definition record_from_id :: "string option \<Rightarrow> pydict \<Rightarrow> pydict" where
  "record_from_id identifier record =
     (let record = stringify_id record in
      if identifier_set identifier \<and> dict_in (KStr ''_id'') record
      then dict_set (dict_pop record (KStr ''_id'')) (KStr (the identifier))
             (the (dict_get record (KStr ''_id'')))
      else record)"

section \<open>Condition translator\<close>

text \<open>
  \<^verbatim>\<open>'${}'.format(statement)\<close> formats a dict key: a string stays as it is, an integer is
  written in decimal, \<^verbatim>\<open>None\<close> and the booleans by their names.
\<close>

fun digit_char :: "nat \<Rightarrow> char" where
  "digit_char n = char_of (48 + n)"

function str_of_nat :: "nat \<Rightarrow> string" where
  "str_of_nat n =
     (if n < 10 then [digit_char n] else str_of_nat (n div 10) @ [digit_char (n mod 10)])"
  by pat_completeness auto
termination
  by (relation "measure id") auto

definition str_of_int :: "int \<Rightarrow> string" where
  "str_of_int i =
     (if i < 0 then CHR ''-'' # str_of_nat (nat (- i)) else str_of_nat (nat i))"

fun py_format :: "pykey \<Rightarrow> string" where
  "py_format KNone = ''None''"
| "py_format (KBool b) = (if b then ''True'' else ''False'')"
| "py_format (KInt i) = str_of_int i"
| "py_format (KStr s) = s"
| "py_format (KObjectId h) = h"

text \<open>
  \<^verbatim>\<open>for condition in conditions\<close>: a list gives its elements, a dict its keys, a string
  its characters; nothing else in this model can be iterated.
\<close>

fun py_iter :: "pyval \<Rightarrow> error + pyval list" where
  "py_iter (PList xs) = Inr xs"
| "py_iter (PDict d) = Inr (map (\<lambda>kv. of_key (fst kv)) d)"
| "py_iter (PStr s) = Inr (map (\<lambda>c. PStr [c]) s)"
| "py_iter v = Inl TypeError"

text \<open>\<^verbatim>\<open>condition[0] == self.identifier\<close>, the identifier being a string or \<^verbatim>\<open>None\<close>.\<close>

definition identifier_eq :: "pyval \<Rightarrow> string option \<Rightarrow> bool" where
  "identifier_eq v identifier =
     (case identifier of None \<Rightarrow> v = PNone | Some i \<Rightarrow> v = PStr i)"

text \<open>The dict display \<^verbatim>\<open>{key: {op: value}}\<close>, which hashes \<^verbatim>\<open>key\<close>.\<close>

definition comparison :: "pyval \<Rightarrow> string \<Rightarrow> pyval \<Rightarrow> error + pydict" where
  "comparison key op v =
     (case as_key key of
        None \<Rightarrow> Inl TypeError
      | Some k \<Rightarrow> Inr [(k, PDict [(KStr op, v)])])"

text \<open>
  The four methods \<^verbatim>\<open>_parse_conditions\<close>, \<^verbatim>\<open>_parse_condition\<close>,
  \<^verbatim>\<open>_parse_condition_list\<close> and \<^verbatim>\<open>_parse_condition_dict\<close> call each other;
  \<open>parse_each\<close> is the list comprehension of \<^verbatim>\<open>_parse_conditions\<close>, and the last
  argument of \<open>parse_condition_dict\<close> is the dict its loop has built so far.
  \<^verbatim>\<open>_parse_condition\<close> has no branch for a value that is neither a list nor a dict: the
  method ends and returns \<^verbatim>\<open>None\<close>.
  \<^verbatim>\<open>len(condition) is 2\<close> compares the identity of small integers, which CPython shares:
  it holds exactly when the length is 2. The equations for one, two, three and more
  elements are the branches of the two length tests; \<^verbatim>\<open>condition[0]\<close> on an empty list
  raises \<^verbatim>\<open>IndexError\<close>, and \<^verbatim>\<open>raise Exception('Unhandled condition')\<close> is
  \<open>UnhandledCondition\<close>.
\<close>

function (sequential)
    parse_conditions :: "string option \<Rightarrow> pyval \<Rightarrow> pykey \<Rightarrow> error + pydict"
and parse_each :: "string option \<Rightarrow> pyval list \<Rightarrow> error + pyval list"
and parse_condition :: "string option \<Rightarrow> pyval \<Rightarrow> error + pyval"
and parse_condition_list :: "string option \<Rightarrow> pyval list \<Rightarrow> error + pydict"
and parse_condition_dict :: "string option \<Rightarrow> pydict \<Rightarrow> pydict \<Rightarrow> error + pydict"
where
  "parse_conditions identifier conditions statement =
     (if \<not> truthy conditions then Inr []
      else case py_iter conditions of
             Inl e \<Rightarrow> Inl e
           | Inr cs \<Rightarrow>
               (case parse_each identifier cs of
                  Inl e \<Rightarrow> Inl e
                | Inr ps \<Rightarrow> Inr [(KStr (''$'' @ py_format statement), PList ps)]))"
| "parse_each identifier [] = Inr []"
| "parse_each identifier (c # cs) =
     (case parse_condition identifier c of
        Inl e \<Rightarrow> Inl e
      | Inr p \<Rightarrow>
          (case parse_each identifier cs of
             Inl e \<Rightarrow> Inl e
           | Inr ps \<Rightarrow> Inr (p # ps)))"
| "parse_condition identifier (PList condition) =
     (case parse_condition_list identifier condition of
        Inl e \<Rightarrow> Inl e
      | Inr d \<Rightarrow> Inr (PDict d))"
| "parse_condition identifier (PDict condition) =
     (case parse_condition_dict identifier condition [] of
        Inl e \<Rightarrow> Inl e
      | Inr d \<Rightarrow> Inr (PDict d))"
| "parse_condition identifier condition = Inr PNone"
| "parse_condition_list identifier [] = Inl IndexError"
| "parse_condition_list identifier [c0] = Inl UnhandledCondition"
| "parse_condition_list identifier [c0, c1] =
     (let key = (if identifier_eq c0 identifier then PStr ''_id'' else c0) in
      case c1 of
        PDict d \<Rightarrow> parse_condition_dict identifier d []
      | _ \<Rightarrow> comparison key ''$eq'' c1)"
| "parse_condition_list identifier [c0, c1, c2] =
     (let key = (if identifier_eq c0 identifier then PStr ''_id'' else c0) in
      if c1 = PStr ''='' then comparison key ''$eq'' c2
      else if c1 = PStr ''>'' then comparison key ''$gt'' c2
      else if c1 = PStr ''>='' then comparison key ''$gte'' c2
      else if c1 = PStr ''<'' then comparison key ''$lt'' c2
      else if c1 = PStr ''<='' then comparison key ''$lte'' c2
      else Inl UnhandledCondition)"
| "parse_condition_list identifier (c0 # c1 # c2 # c3 # cs) = Inl UnhandledCondition"
| "parse_condition_dict identifier [] parsed = Inr parsed"
| "parse_condition_dict identifier ((statement, sub_conditions) # rest) parsed =
     (case parse_conditions identifier sub_conditions statement of
        Inl e \<Rightarrow> Inl e
      | Inr p \<Rightarrow> parse_condition_dict identifier rest (dict_update parsed p))"
  by pat_completeness auto
termination
proof (relation "inv_image (less_than <*lex*> less_than <*lex*> less_than)
    (case_sum
      (case_sum (\<lambda>(i, c, s). (size c, 3::nat, 0::nat))
                (\<lambda>(i, cs). (sum_list (map size cs), 2, length cs)))
      (case_sum (\<lambda>(i, c). (size c, 1, 0))
        (case_sum (\<lambda>(i, cs). (sum_list (map size cs), 0, 0))
                  (\<lambda>(i, d, p). (sum_list (map (\<lambda>kv. size (snd kv)) d), 4, length d)))))",
    goal_cases)
  have lex3: "((a, r, l), (b, r', l')) \<in> less_than <*lex*> less_than <*lex*> less_than"
    if "a \<le> b" and "a < b \<or> r < r' \<or> (r = r' \<and> l < l')" for a b r r' l l' :: nat
    using that by auto
  have list_size: "sum_list (map size xs) \<le> size_list size xs" for xs :: "pyval list"
    by (induction xs) simp_all
  have dict_size: "sum_list (map (\<lambda>kv. size (snd kv)) d) < size (PDict d)" for d
  proof -
    have "sum_list (map (\<lambda>kv. size (snd kv)) d) \<le> size_list (size_prod (\<lambda>_. 0) size) d"
      by (induction d) auto
    then show ?thesis by simp
  qed
  have key_size: "size (of_key k) = 0" for k
    by (cases k) simp_all
  have iter_size: "sum_list (map size cs) \<le> size c" if "py_iter c = Inr cs" for c cs
  proof (cases c)
    case (PList xs)
    with that have "cs = xs" by simp
    then show ?thesis using PList list_size [of xs] by simp
  qed (use that in \<open>auto simp: o_def key_size\<close>)
  {
    case 1
    show ?case by (intro wf_inv_image wf_lex_prod wf_less_than)
  next
    case (2 idn conditions statement cs)
    then show ?case using iter_size [of conditions cs]
      unfolding in_inv_image by (simp only: sum.case prod.case) (rule lex3; simp)
  next
    case (3 idn c cs)
    show ?case
      unfolding in_inv_image
      by (simp only: sum.case prod.case list.map sum_list.Cons) (rule lex3; simp)
  next
    case (4 idn c cs)
    show ?case
      unfolding in_inv_image
      by (simp only: sum.case prod.case list.map sum_list.Cons) (rule lex3; simp)
  next
    case (5 idn condition)
    show ?case using list_size [of condition]
      unfolding in_inv_image by (simp only: sum.case prod.case) (rule lex3; simp)
  next
    case (6 idn condition)
    show ?case using dict_size [of condition]
      unfolding in_inv_image by (simp only: sum.case prod.case) (rule lex3; simp)
  next
    case (7 idn c0 c1 key d)
    show ?case using dict_size [of d] 7
      unfolding in_inv_image
      by (simp only: sum.case prod.case list.map sum_list.Cons) (rule lex3; simp)
  next
    case (8 idn statement sub_conditions rest parsed)
    show ?case
      unfolding in_inv_image
      by (simp only: sum.case prod.case list.map sum_list.Cons snd_conv) (rule lex3; simp)
  next
    case (9 idn statement sub_conditions rest parsed)
    show ?case
      unfolding in_inv_image
      by (simp only: sum.case prod.case list.map sum_list.Cons snd_conv) (rule lex3; simp)
  }
qed

section \<open>Projection builder\<close>

text \<open>
  \<^verbatim>\<open>field is self.identifier\<close> tests whether the two names refer to one object. A value
  does not determine that, so each field comes with a mark: \<open>True\<close> when the object is
  the identifier itself. Only an object equal to the identifier can be that.
  \<^verbatim>\<open>fields\<close> is \<open>None\<close> for Python's \<^verbatim>\<open>None\<close>.
\<close>

type_synonym field_object = "pyval \<times> bool"

definition is_identifier :: "field_object \<Rightarrow> string option \<Rightarrow> bool" where
  "is_identifier field identifier = (snd field \<and> identifier_eq (fst field) identifier)"

text \<open>The dict comprehension \<^verbatim>\<open>{field: 1 for field in fields}\<close>.\<close>

fun include_fields :: "pyval list \<Rightarrow> pydict \<Rightarrow> error + pydict" where
  "include_fields [] projection = Inr projection"
| "include_fields (field # fields) projection =
     (case as_key field of
        None \<Rightarrow> Inl TypeError
      | Some k \<Rightarrow> include_fields fields (dict_set projection k (PInt 1)))"

definition projection_from_list ::
  "string option \<Rightarrow> field_object list option \<Rightarrow> error + pydict" where
  "projection_from_list identifier fields =
     (case fields of
        None \<Rightarrow> Inr []
      | Some [] \<Rightarrow> Inr []
      | Some fs \<Rightarrow>
          (let fields = map (\<lambda>field. if is_identifier field identifier then PStr ''_id''
                                     else fst field) fs in
           case include_fields fields [] of
             Inl e \<Rightarrow> Inl e
           | Inr projection \<Rightarrow>
               if PStr ''_id'' \<notin> set fields
               then Inr (dict_set projection (KStr ''_id'') (PInt 0))
               else Inr projection))"

section \<open>The collection and the table adapter\<close>

text \<open>
  The pymongo collection is outside the repository. The adapter uses three of its
  operations, each once per call; the model takes their answers as functions and
  returns, next to the adapter's result, the list of operations that have reached the
  collection. \<^verbatim>\<open>insert_one\<close> changes the document it is given (the driver stores the
  generated \<^verbatim>\<open>_id\<close> in it), so its answer is the document as the call leaves it. A
  query is \<^verbatim>\<open>find(filter, projection)\<close> followed by the cursor methods in the order
  the adapter calls them; a cursor runs when it is iterated, so a cursor that the
  adapter builds and never iterates is no operation, and every exception of the driver
  is the answer to the operation as a whole. \<open>Raw\<close> is an exception of the driver that
  the adapter lets through.
\<close>

datatype cursor_op = Limit pyval | Skip pyval | Sort "(pyval \<times> int) list"

datatype backend_call =
    InsertOne pydict
  | FindOne pydict pyval
  | Find pydict pyval "cursor_op list"

datatype collection = Collection
  (coll_insert_one: "pydict \<Rightarrow> backend_exn + pydict")
  (coll_find_one: "pydict \<Rightarrow> pyval \<Rightarrow> backend_exn + pydict option")
  (coll_find: "pydict \<Rightarrow> pyval \<Rightarrow> cursor_op list \<Rightarrow> backend_exn + pydict list")

text \<open>pymongo's sort directions.\<close>

definition ASCENDING :: int where
  "ASCENDING = 1"

definition DESCENDING :: int where
  "DESCENDING = - 1"

text \<open>
  \<^verbatim>\<open>record['_id']\<close> raises \<^verbatim>\<open>KeyError\<close> when the key is missing; the \<^verbatim>\<open>except\<close> clause
  catches \<^verbatim>\<open>DuplicateKeyError\<close> only, so every other exception leaves \<^verbatim>\<open>insert\<close> as
  it is.
\<close>

definition insert ::
  "string option \<Rightarrow> collection \<Rightarrow> pydict \<Rightarrow> backend_call list \<times> (error + pydict)" where
  "insert identifier collection record =
     (let record = record_to_id identifier record in
      case dict_get record (KStr ''_id'') of
        None \<Rightarrow> ([], Inl (KeyError ''_id''))
      | Some v \<Rightarrow>
          (let record = (if v = PNone then dict_pop record (KStr ''_id'') else record) in
           ([InsertOne record],
            case coll_insert_one collection record of
              Inl DuplicateKeyError \<Rightarrow> Inl (DuplicateError ''Duplicate record'')
            | Inl (OtherBackendError m) \<Rightarrow> Inl (Raw (OtherBackendError m))
            | Inr stored \<Rightarrow> Inr (record_from_id identifier stored))))"

text \<open>
  \<^verbatim>\<open>find_one\<close> and \<^verbatim>\<open>find\<close> hand \<^verbatim>\<open>fields\<close> to the collection as they receive it.
\<close>

definition find_one ::
  "string option \<Rightarrow> collection \<Rightarrow> pyval \<Rightarrow> pyval \<Rightarrow>
   backend_call list \<times> (error + pydict option)" where
  "find_one identifier collection where_conditions fields =
     (case parse_conditions identifier where_conditions (KStr ''and'') of
        Inl e \<Rightarrow> ([], Inl e)
      | Inr parsed_where \<Rightarrow>
          ([FindOne parsed_where fields],
           case coll_find_one collection parsed_where fields of
             Inl x \<Rightarrow> Inl (Raw x)
           | Inr None \<Rightarrow> Inr None
           | Inr (Some record) \<Rightarrow> Inr (Some (record_from_id identifier record))))"

text \<open>
  An item of \<^verbatim>\<open>order\<close> is a list; \<^verbatim>\<open>item[1] is 'desc'\<close> tests whether its second
  element is the very object of the literal \<^verbatim>\<open>'desc'\<close> in the adapter's module. As for
  the fields of a projection, the item carries a mark for that.
\<close>

datatype order_item = OrderItem (item: "pyval list") (desc_literal: bool)

definition is_desc :: "order_item \<Rightarrow> bool" where
  "is_desc it = (desc_literal it \<and> item it ! 1 = PStr ''desc'')"

fun updated_order :: "order_item list \<Rightarrow> error + (pyval \<times> int) list" where
  "updated_order [] = Inr []"
| "updated_order (it # order) =
     (if length (item it) < 2 then Inl IndexError
      else let direction = (if is_desc it then DESCENDING else ASCENDING) in
           case updated_order order of
             Inl e \<Rightarrow> Inl e
           | Inr rest \<Rightarrow> Inr ((item it ! 0, direction) # rest))"

text \<open>
  \<open>limit\<close> is \<open>None\<close> when the caller leaves the argument out, and the default 100 is
  used. \<^verbatim>\<open>offset\<close> and \<^verbatim>\<open>order\<close> default to Python's \<^verbatim>\<open>None\<close>. The cursor runs when the
  final comprehension iterates it.
\<close>

definition find ::
  "string option \<Rightarrow> collection \<Rightarrow> pyval \<Rightarrow> pyval \<Rightarrow> pyval option \<Rightarrow> pyval \<Rightarrow>
   order_item list option \<Rightarrow> backend_call list \<times> (error + pydict list)" where
  "find identifier collection where_conditions fields limit offset order =
     (case parse_conditions identifier where_conditions (KStr ''and'') of
        Inl e \<Rightarrow> ([], Inl e)
      | Inr parsed_where \<Rightarrow>
          (let results = [Limit (case limit of None \<Rightarrow> PInt 100 | Some n \<Rightarrow> n)];
               results = (if offset \<noteq> PNone then results @ [Skip offset] else results)
           in case (case order of
                      None \<Rightarrow> Inr results
                    | Some items \<Rightarrow>
                        (case updated_order items of
                           Inl e \<Rightarrow> Inl e
                         | Inr pairs \<Rightarrow> Inr (results @ [Sort pairs]))) of
                Inl e \<Rightarrow> ([], Inl e)
              | Inr results \<Rightarrow>
                  ([Find parsed_where fields results],
                   case coll_find collection parsed_where fields results of
                     Inl x \<Rightarrow> Inl (Raw x)
                   | Inr records \<Rightarrow> Inr (map (record_from_id identifier) records))))"

section \<open>Permissions and tokens\<close>

text \<open>
  From \<^verbatim>\<open>runehistory_api/app/services/auth.py\<close>. A user has a name, a hashed password,
  a type (its role) and an id, which is \<^verbatim>\<open>None\<close> until the repository assigns one.
\<close>

record user =
  username :: string
  password :: string
  user_type :: string
  user_id :: "string option"

type_synonym permissions = "(string \<times> string list) list"

definition generate :: "user \<Rightarrow> error + permissions" where
  "generate user =
     (if user_type user = ''service'' then
        Inr [(''accounts'', [''r'', ''c'', ''u'', ''d'']),
             (''highscores'', [''r'', ''c'', ''u'', ''d'']),
             (''users'', [''r'', ''c'', ''u'', ''d''])]
      else if user_type user = ''guest'' then
        Inr [(''accounts'', [''r'', ''c'']),
             (''highscores'', [''r''])]
      else Inl (ValueError (''Unknown user type: '' @ user_type user)))"

definition check_permission :: "string \<Rightarrow> permissions \<Rightarrow> string \<Rightarrow> bool" where
  "check_permission scope permissions required =
     (case map_of permissions scope of
        None \<Rightarrow> False
      | Some scope_perms \<Rightarrow>
          if scope_perms = [] then False
          else if ''*'' \<notin> set scope_perms \<and> required \<notin> set scope_perms then False
          else True)"





section \<open>Properties\<close>

lemma map_of_dict_set: "map_of (dict_set d k v) = (map_of d)(k \<mapsto> v)"
  by (induction d) (auto simp: fun_eq_iff)

lemma map_of_dict_pop: "map_of (dict_pop d k) = (map_of d)(k := None)"
  unfolding dict_pop_def by (induction d) (auto simp: fun_eq_iff)

subsection \<open>Record codec\<close>

lemma stringify_id_other:
  "\<forall>h. dict_get r (KStr ''_id'') \<noteq> Some (PObjectId h) \<Longrightarrow> stringify_id r = r"
  unfolding stringify_id_def by (auto split: option.splits pyval.splits)

lemma record_roundtrip_map:
  assumes no_id: "dict_get r (KStr ''_id'') = None"
    and no_oid: "\<forall>h. identifier_set identifier \<longrightarrow> dict_get r (KStr (the identifier)) \<noteq> Some (PObjectId h)"
  shows "map_of (record_from_id identifier (record_to_id identifier r)) = map_of r"
proof (cases "identifier_set identifier \<and> dict_in (KStr (the identifier)) r")
  case False
  then have enc: "record_to_id identifier r = r"
    unfolding record_to_id_def by auto
  have "stringify_id r = r"
    using no_id by (simp add: stringify_id_other)
  moreover have "\<not> dict_in (KStr ''_id'') r"
    using no_id by (simp add: dict_in_def)
  ultimately show ?thesis
    unfolding enc record_from_id_def by (simp add: Let_def)
next
  case True
  then obtain v where v: "dict_get r (KStr (the identifier)) = Some v"
    unfolding dict_in_def by auto
  let ?i = "KStr (the identifier)"
  let ?e = "dict_set (dict_pop r ?i) (KStr ''_id'') v"
  have ne: "?i \<noteq> KStr ''_id''"
    using v no_id by auto
  have enc: "record_to_id identifier r = ?e"
    using True v unfolding record_to_id_def by simp
  have get_e: "dict_get ?e (KStr ''_id'') = Some v"
    unfolding dict_get_def by (simp add: map_of_dict_set)
  have "\<forall>h. v \<noteq> PObjectId h"
    using no_oid True v by auto
  then have str: "stringify_id ?e = ?e"
    using get_e by (simp add: stringify_id_other)
  have "record_from_id identifier ?e = dict_set (dict_pop ?e (KStr ''_id'')) ?i v"
    using True get_e unfolding record_from_id_def str by (simp add: Let_def dict_in_def)
  moreover have "map_of (dict_set (dict_pop ?e (KStr ''_id'')) ?i v) = map_of r"
    using v no_id ne unfolding dict_get_def
    by (auto simp: map_of_dict_set map_of_dict_pop fun_eq_iff)
  ultimately show ?thesis
    unfolding enc by simp
qed

text \<open>
  C5. A record without a key \<^verbatim>\<open>_id\<close> of its own and without \<^verbatim>\<open>ObjectId\<close> values is
  given back by \<^verbatim>\<open>_record_from_id\<close> after \<^verbatim>\<open>_record_to_id\<close>, as Python compares dicts:
  the same keys with the same values. This holds for every identifier, set or not, and
  whatever the value under it, \<^verbatim>\<open>None\<close> included; the field named by the identifier moves
  to the end of the dict.
\<close>

theorem decode_encode_inverse:
  assumes "\<not> dict_in (KStr ''_id'') r"
    and "\<forall>v \<in> snd ` set r. \<not> is_object_id v"
  shows "dict_equal (record_from_id identifier (record_to_id identifier r)) r"
proof -
  have a: "dict_get r (KStr ''_id'') = None"
    using assms(1) by (simp add: dict_in_def)
  have b: "dict_get r k \<noteq> Some (PObjectId h)" for k h
  proof
    assume "dict_get r k = Some (PObjectId h)"
    then have "(k, PObjectId h) \<in> set r"
      unfolding dict_get_def by (rule map_of_SomeD)
    then have "PObjectId h \<in> snd ` set r" by force
    with assms(2) show False by auto
  qed
  show ?thesis
    unfolding dict_equal_def using record_roundtrip_map [OF a] b by simp
qed

theorem decode_encode_inverse_witness:
  "\<not> dict_in (KStr ''_id'') [(KStr ''id'', PStr ''7''), (KStr ''username'', PStr ''bob'')]
   \<and> record_from_id (Some ''id'') (record_to_id (Some ''id'')
        [(KStr ''id'', PStr ''7''), (KStr ''username'', PStr ''bob'')])
      = [(KStr ''username'', PStr ''bob''), (KStr ''id'', PStr ''7'')]
   \<and> dict_equal (record_from_id (Some ''id'') (record_to_id (Some ''id'')
        [(KStr ''id'', PStr ''7''), (KStr ''username'', PStr ''bob'')]))
        [(KStr ''id'', PStr ''7''), (KStr ''username'', PStr ''bob'')]"
proof -
  let ?r = "[(KStr ''id'', PStr ''7''), (KStr ''username'', PStr ''bob'')]"
  have h1: "\<not> dict_in (KStr ''_id'') ?r"
    by (simp add: dict_in_def dict_get_def)
  have h2: "\<forall>v \<in> snd ` set ?r. \<not> is_object_id v"
    by simp
  have ev: "record_from_id (Some ''id'') (record_to_id (Some ''id'') ?r)
      = [(KStr ''username'', PStr ''bob''), (KStr ''id'', PStr ''7'')]"
    by (simp add: record_from_id_def record_to_id_def stringify_id_def identifier_set_def
        dict_in_def dict_get_def dict_pop_def Let_def)
  show ?thesis
    using h1 h2 ev decode_encode_inverse [OF h1 h2, of "Some ''id''"] by simp
qed

subsection \<open>Condition translator\<close>

lemma identifier_eq_str: "identifier_eq (PStr f) identifier = (identifier = Some f)"
  unfolding identifier_eq_def by (auto split: option.splits)

text \<open>
  C2. A condition \<^verbatim>\<open>[field, op, value]\<close> with \<^verbatim>\<open>op\<close> one of \<^verbatim>\<open>=\<close>, \<^verbatim>\<open>>\<close>, \<^verbatim>\<open>>=\<close>,
  \<^verbatim>\<open><\<close>, \<^verbatim>\<open><=\<close> is translated to \<^verbatim>\<open>{key: {native: value}}\<close> with \<^verbatim>\<open>native\<close> the
  operator \<^verbatim>\<open>$eq\<close>, \<^verbatim>\<open>$gt\<close>, \<^verbatim>\<open>$gte\<close>, \<^verbatim>\<open>$lt\<close>, \<^verbatim>\<open>$lte\<close> in that order, five
  different names, and \<^verbatim>\<open>key\<close> the field, or \<^verbatim>\<open>_id\<close> when the field equals the
  identifier. Any other second element, a string or not, ends in the exception
  \<^verbatim>\<open>Exception('Unhandled condition')\<close>, whatever the field and the value are.
\<close>

theorem comparison_operators:
  "parse_condition_list identifier [PStr field, PStr ''='', v] =
     Inr [(KStr (if identifier = Some field then ''_id'' else field), PDict [(KStr ''$eq'', v)])]
   \<and> parse_condition_list identifier [PStr field, PStr ''>'', v] =
     Inr [(KStr (if identifier = Some field then ''_id'' else field), PDict [(KStr ''$gt'', v)])]
   \<and> parse_condition_list identifier [PStr field, PStr ''>='', v] =
     Inr [(KStr (if identifier = Some field then ''_id'' else field), PDict [(KStr ''$gte'', v)])]
   \<and> parse_condition_list identifier [PStr field, PStr ''<'', v] =
     Inr [(KStr (if identifier = Some field then ''_id'' else field), PDict [(KStr ''$lt'', v)])]
   \<and> parse_condition_list identifier [PStr field, PStr ''<='', v] =
     Inr [(KStr (if identifier = Some field then ''_id'' else field), PDict [(KStr ''$lte'', v)])]
   \<and> distinct [''$eq'', ''$gt'', ''$gte'', ''$lt'', ''$lte'']
   \<and> (op \<notin> {PStr ''='', PStr ''>'', PStr ''>='', PStr ''<'', PStr ''<=''} \<longrightarrow>
        parse_condition_list identifier [c0, op, w] = Inl UnhandledCondition)"
  by (simp add: identifier_eq_str comparison_def Let_def)

theorem comparison_operators_witness:
  "PStr ''!='' \<notin> {PStr ''='', PStr ''>'', PStr ''>='', PStr ''<'', PStr ''<=''}
   \<and> parse_condition_list (Some ''id'') [PStr ''id'', PStr ''!='', PInt 3] = Inl UnhandledCondition
   \<and> parse_condition_list (Some ''id'') [PStr ''id'', PStr ''>='', PInt 3] =
       Inr [(KStr ''_id'', PDict [(KStr ''$gte'', PInt 3)])]"
  using comparison_operators [of "Some ''id''" "''id''" "PInt 3" "PStr ''!=''" "PStr ''id''" "PInt 3"]
  by simp

lemma parse_each_length:
  "parse_each identifier cs = Inr ps \<Longrightarrow> length ps = length cs"
  by (induction cs arbitrary: ps) (auto split: sum.splits)

lemma py_iter_truthy:
  "truthy c \<Longrightarrow> py_iter c = Inr cs \<Longrightarrow> cs \<noteq> []"
  by (cases c) auto

lemma parse_conditions_shape:
  assumes "parse_conditions identifier conditions statement = Inr d"
  shows "d = [] \<or> (\<exists>ps. ps \<noteq> [] \<and> d = [(KStr (''$'' @ py_format statement), PList ps)])"
proof (cases "truthy conditions")
  case False
  with assms show ?thesis by simp
next
  case True
  with assms obtain cs ps where cs: "py_iter conditions = Inr cs"
    and ps: "parse_each identifier cs = Inr ps"
    and d: "d = [(KStr (''$'' @ py_format statement), PList ps)]"
    by (auto split: sum.splits)
  from True cs have "cs \<noteq> []" by (rule py_iter_truthy)
  with parse_each_length [OF ps] have "ps \<noteq> []" by auto
  with d show ?thesis by blast
qed

lemma dict_set_entries:
  "(k, v) \<in> set (dict_set d k' v') \<Longrightarrow> (k, v) \<in> set d \<or> (k = k' \<and> v = v')"
  by (induction d) (auto split: if_splits)

lemma dict_update_entries:
  "(k, v) \<in> set (dict_update d e) \<Longrightarrow> (k, v) \<in> set d \<or> (k, v) \<in> set e"
  by (induction d e rule: dict_update.induct) (auto dest: dict_set_entries)

lemma parse_condition_dict_no_empty:
  "parse_condition_dict identifier grp parsed = Inr d \<Longrightarrow>
   (k, PList []) \<notin> set parsed \<Longrightarrow> (k, PList []) \<notin> set d"
proof (induction grp arbitrary: parsed)
  case Nil
  then show ?case by simp
next
  case (Cons g grp)
  obtain statement sub_conditions where g: "g = (statement, sub_conditions)"
    by (cases g)
  from Cons.prems(1) g obtain p
    where p: "parse_conditions identifier sub_conditions statement = Inr p"
      and rest: "parse_condition_dict identifier grp (dict_update parsed p) = Inr d"
    by (auto split: sum.splits)
  from parse_conditions_shape [OF p] have "(k, PList []) \<notin> set p" by auto
  with Cons.prems(2) have "(k, PList []) \<notin> set (dict_update parsed p)"
    by (auto dest: dict_update_entries)
  with Cons.IH [OF rest] show ?case .
qed

text \<open>
  C3. Conditions that are \<^verbatim>\<open>None\<close> or an empty list translate to the empty filter, and
  so does a group \<^verbatim>\<open>{combinator: []}\<close>, through \<^verbatim>\<open>_parse_condition_dict\<close> and through
  \<^verbatim>\<open>_parse_condition\<close>. No filter that \<^verbatim>\<open>_parse_conditions\<close> or
  \<^verbatim>\<open>_parse_condition_dict\<close> returns has an entry with an empty operand list, whatever
  the conditions are and under every key.
\<close>

theorem empty_group_matches_all:
  "parse_conditions identifier PNone statement = Inr []
   \<and> parse_conditions identifier (PList []) statement = Inr []
   \<and> parse_condition_dict identifier [(combinator, PList [])] [] = Inr []
   \<and> parse_condition identifier (PDict [(combinator, PList [])]) = Inr (PDict [])
   \<and> (parse_conditions identifier conditions statement = Inr d \<longrightarrow> (k, PList []) \<notin> set d)
   \<and> (parse_condition_dict identifier grp [] = Inr d' \<longrightarrow> (k, PList []) \<notin> set d')"
proof -
  have "(k, PList []) \<notin> set d" if "parse_conditions identifier conditions statement = Inr d"
    using parse_conditions_shape [OF that] by auto
  moreover have "(k, PList []) \<notin> set d'" if "parse_condition_dict identifier grp [] = Inr d'"
    using parse_condition_dict_no_empty [OF that] by simp
  ultimately show ?thesis by simp
qed

theorem empty_group_matches_all_witness:
  "parse_conditions (Some ''id'') (PList [PList [PStr ''a'', PInt 1]]) (KStr ''or'') =
     Inr [(KStr ''$or'', PList [PDict [(KStr ''a'', PDict [(KStr ''$eq'', PInt 1)])]])]
   \<and> parse_condition_dict (Some ''id'')
       [(KStr ''and'', PList []), (KStr ''or'', PList [PList [PStr ''a'', PInt 1]])] [] =
     Inr [(KStr ''$or'', PList [PDict [(KStr ''a'', PDict [(KStr ''$eq'', PInt 1)])]])]
   \<and> (KStr ''$and'', PList []) \<notin>
       set [(KStr ''$or'', PList [PDict [(KStr ''a'', PDict [(KStr ''$eq'', PInt 1)])]])]"
proof -
  let ?d = "[(KStr ''$or'', PList [PDict [(KStr ''a'', PDict [(KStr ''$eq'', PInt 1)])]])]"
  have a: "parse_conditions (Some ''id'') (PList [PList [PStr ''a'', PInt 1]]) (KStr ''or'') = Inr ?d"
    by (simp add: comparison_def identifier_eq_def)
  have b: "parse_condition_dict (Some ''id'')
       [(KStr ''and'', PList []), (KStr ''or'', PList [PList [PStr ''a'', PInt 1]])] [] = Inr ?d"
    by (simp add: comparison_def identifier_eq_def)
  show ?thesis
    using a b empty_group_matches_all [of "Some ''id''" "KStr ''or''" "KStr ''and''"
        "PList [PList [PStr ''a'', PInt 1]]" ?d "KStr ''$and''"
        "[(KStr ''and'', PList []), (KStr ''or'', PList [PList [PStr ''a'', PInt 1]])]" ?d]
    by simp
qed

text \<open>
  C9. \<^verbatim>\<open>_parse_condition\<close> returns \<^verbatim>\<open>None\<close>, without an exception, for a condition
  that is neither a list nor a dict, and \<^verbatim>\<open>_parse_conditions\<close> puts that \<^verbatim>\<open>None\<close> among
  the operands of the filter: an integer and a bare field name are two such conditions.
\<close>

theorem unmapped_condition_returns_none:
  "parse_condition (Some ''id'') (PInt 5) = Inr PNone
   \<and> parse_conditions (Some ''id'') (PList [PInt 5]) (KStr ''and'') =
       Inr [(KStr ''$and'', PList [PNone])]
   \<and> parse_conditions (Some ''id'') (PList [PStr ''name'']) (KStr ''and'') =
       Inr [(KStr ''$and'', PList [PNone])]"
  by simp

text \<open>Every such condition is treated so; a list of a wrong length does raise.\<close>

lemma parse_condition_not_list_or_dict:
  "(\<forall>xs. c \<noteq> PList xs) \<Longrightarrow> (\<forall>d. c \<noteq> PDict d) \<Longrightarrow> parse_condition identifier c = Inr PNone"
  by (cases c) simp_all

lemma parse_condition_list_bad_length:
  "length condition \<noteq> 2 \<Longrightarrow> length condition \<noteq> 3 \<Longrightarrow>
   parse_condition_list identifier condition = Inl IndexError
   \<or> parse_condition_list identifier condition = Inl UnhandledCondition"
proof -
  assume len: "length condition \<noteq> 2" "length condition \<noteq> 3"
  consider "condition = []" | c0 where "condition = [c0]"
    | c0 c1 c2 c3 cs where "condition = c0 # c1 # c2 # c3 # cs"
  proof (cases condition)
    case Nil
    then show ?thesis using that by simp
  next
    case (Cons a as)
    with len that show ?thesis
      by (cases as; cases "tl as"; cases "tl (tl as)") auto
  qed
  then show ?thesis by cases simp_all
qed

subsection \<open>Queries\<close>

lemma parse_conditions_none: "parse_conditions identifier PNone statement = Inr []"
  by simp

lemma find_one_fields:
  "parse_conditions identifier w (KStr ''and'') = Inr parsed_where \<Longrightarrow>
   fst (find_one identifier collection w fs) = [FindOne parsed_where fs]"
  unfolding find_one_def by simp

lemma projection_from_list_empty:
  "projection_from_list identifier None = Inr []"
  "projection_from_list identifier (Some []) = Inr []"
  unfolding projection_from_list_def by simp_all

text \<open>
  C1. \<^verbatim>\<open>find_one\<close> and \<^verbatim>\<open>find\<close> give the collection the list of field names itself,
  not the projection that \<^verbatim>\<open>_projection_from_list\<close> builds from it. For the fields
  \<^verbatim>\<open>['name']\<close> and the identifier \<^verbatim>\<open>id\<close> the collection receives \<^verbatim>\<open>['name']\<close>, where
  the builder gives \<^verbatim>\<open>{'name': 1, '_id': 0}\<close>; for \<^verbatim>\<open>['id']\<close> it receives \<^verbatim>\<open>['id']\<close>,
  where the builder gives \<^verbatim>\<open>{'_id': 1}\<close> when the field is the identifier object.
\<close>

theorem find_passes_fields_unprojected:
  "fst (find_one (Some ''id'') collection PNone (PList [PStr ''name''])) =
     [FindOne [] (PList [PStr ''name''])]
   \<and> fst (find (Some ''id'') collection PNone (PList [PStr ''name'']) None PNone None) =
     [Find [] (PList [PStr ''name'']) [Limit (PInt 100)]]
   \<and> projection_from_list (Some ''id'') (Some [(PStr ''name'', b)]) =
     Inr [(KStr ''name'', PInt 1), (KStr ''_id'', PInt 0)]
   \<and> fst (find_one (Some ''id'') collection PNone (PList [PStr ''id''])) =
     [FindOne [] (PList [PStr ''id''])]
   \<and> projection_from_list (Some ''id'') (Some [(PStr ''id'', True)]) =
     Inr [(KStr ''_id'', PInt 1)]"
  by (simp add: find_one_def find_def projection_from_list_def is_identifier_def
      identifier_eq_def Let_def)

lemma updated_order_fields:
  "updated_order order = Inr pairs \<Longrightarrow> map fst pairs = map (\<lambda>it. item it ! 0) order"
  by (induction order arbitrary: pairs) (auto simp: Let_def split: if_splits sum.splits)

lemma updated_order_directions:
  "updated_order order = Inr pairs \<Longrightarrow>
   map snd pairs = map (\<lambda>it. if is_desc it then DESCENDING else ASCENDING) order"
  by (induction order arbitrary: pairs) (auto simp: Let_def split: if_splits sum.splits)

lemma find_cursor_ops:
  assumes "fst (find identifier collection w fs limit offset order) = [Find parsed_where fs' ops]"
  shows "hd ops = Limit (case limit of None \<Rightarrow> PInt 100 | Some n \<Rightarrow> n)
       \<and> (Skip offset \<in> set ops \<longleftrightarrow> offset \<noteq> PNone)
       \<and> (\<forall>v. Skip v \<in> set ops \<longrightarrow> v = offset)
       \<and> ((\<exists>pairs. Sort pairs \<in> set ops) \<longleftrightarrow> order \<noteq> None)"
  using assms unfolding find_def
  by (auto simp: Let_def split: sum.splits option.splits if_splits)

text \<open>
  C6. With no offset, \<^verbatim>\<open>find\<close> applies the limit 100 and then the sort. An item whose
  direction equals \<^verbatim>\<open>'desc'\<close> without being the object of the adapter's own literal is
  sorted ascending; it is sorted descending when it is that object. The two directions
  are different tokens.
\<close>

theorem find_order_desc_not_literal:
  "fst (find (Some ''id'') collection PNone PNone None PNone
         (Some [OrderItem [PStr ''score'', PStr ''desc''] False,
                OrderItem [PStr ''name'', PStr ''asc''] False])) =
     [Find [] PNone [Limit (PInt 100), Sort [(PStr ''score'', ASCENDING), (PStr ''name'', ASCENDING)]]]
   \<and> fst (find (Some ''id'') collection PNone PNone None PNone
         (Some [OrderItem [PStr ''score'', PStr ''desc''] True,
                OrderItem [PStr ''name'', PStr ''asc''] False])) =
     [Find [] PNone [Limit (PInt 100), Sort [(PStr ''score'', DESCENDING), (PStr ''name'', ASCENDING)]]]
   \<and> ASCENDING \<noteq> DESCENDING"
  by (simp add: find_def is_desc_def Let_def ASCENDING_def DESCENDING_def)

subsection \<open>Insertion\<close>

lemma record_to_id_unset:
  "\<not> identifier_set identifier \<Longrightarrow> record_to_id identifier record = record"
  unfolding record_to_id_def by simp

lemma record_to_id_missing:
  "\<not> dict_in (KStr (the identifier)) record \<Longrightarrow> record_to_id identifier record = record"
  unfolding record_to_id_def by simp

text \<open>
  C10. When the record, after \<^verbatim>\<open>_record_to_id\<close>, has no key \<^verbatim>\<open>_id\<close>, \<^verbatim>\<open>insert\<close> raises
  \<^verbatim>\<open>KeyError('_id')\<close> and has run nothing on the collection. By the two lemmas above
  this is so for a record without \<^verbatim>\<open>_id\<close> when the identifier is unset, or when the
  record has no field of the identifier's name.
\<close>

theorem insert_without_native_key:
  "\<not> dict_in (KStr ''_id'') (record_to_id identifier record) \<Longrightarrow>
   insert identifier collection record = ([], Inl (KeyError ''_id''))"
  unfolding insert_def dict_in_def by (simp add: Let_def)

theorem insert_without_native_key_witness:
  "\<not> dict_in (KStr ''_id'') (record_to_id None [(KStr ''username'', PStr ''bob'')])
   \<and> insert None (Collection (\<lambda>d. Inr d) (\<lambda>f p. Inr None) (\<lambda>f p ops. Inr []))
        [(KStr ''username'', PStr ''bob'')] = ([], Inl (KeyError ''_id''))
   \<and> \<not> dict_in (KStr ''_id'') (record_to_id (Some ''id'') [(KStr ''username'', PStr ''bob'')])
   \<and> insert (Some ''id'') (Collection (\<lambda>d. Inr d) (\<lambda>f p. Inr None) (\<lambda>f p ops. Inr []))
        [(KStr ''username'', PStr ''bob'')] = ([], Inl (KeyError ''_id''))"
proof -
  let ?r = "[(KStr ''username'', PStr ''bob'')]"
  let ?c = "Collection (\<lambda>d. Inr d) (\<lambda>f p. Inr None) (\<lambda>f p ops. Inr [])"
  have a: "\<not> dict_in (KStr ''_id'') (record_to_id None ?r)"
    by (simp add: record_to_id_def identifier_set_def dict_in_def dict_get_def)
  have b: "\<not> dict_in (KStr ''_id'') (record_to_id (Some ''id'') ?r)"
    by (simp add: record_to_id_def identifier_set_def dict_in_def dict_get_def)
  show ?thesis
    using a b insert_without_native_key [OF a, of ?c] insert_without_native_key [OF b, of ?c]
    by simp
qed

lemma record_from_id_shows_key:
  assumes "identifier = Some i" and "i \<noteq> []"
    and "dict_get stored (KStr ''_id'') = Some (PObjectId h)"
  shows "dict_get (record_from_id identifier stored) (KStr i) = Some (PStr h)"
proof -
  let ?s = "dict_set stored (KStr ''_id'') (PStr h)"
  have s: "stringify_id stored = ?s"
    using assms(3) unfolding stringify_id_def by simp
  have g: "dict_get ?s (KStr ''_id'') = Some (PStr h)"
    unfolding dict_get_def by (simp add: map_of_dict_set)
  show ?thesis
    using assms(1,2) g unfolding record_from_id_def s
    by (simp add: Let_def identifier_set_def dict_in_def)
      (simp add: dict_get_def map_of_dict_set)
qed

text \<open>
  C4. When \<^verbatim>\<open>insert\<close> has run \<^verbatim>\<open>insert_one\<close> on a document: if the collection answers
  with \<^verbatim>\<open>DuplicateKeyError\<close>, \<^verbatim>\<open>insert\<close> raises \<^verbatim>\<open>DuplicateError('Duplicate record')\<close>;
  the driver's \<^verbatim>\<open>DuplicateKeyError\<close> never leaves \<^verbatim>\<open>insert\<close>; if the collection stores
  the document, \<^verbatim>\<open>insert\<close> returns it after \<^verbatim>\<open>_record_from_id\<close>, and an \<^verbatim>\<open>ObjectId\<close>
  that the collection has put under \<^verbatim>\<open>_id\<close> is found, as a string, under the name of the
  identifier.
\<close>

theorem insert_duplicate_and_success:
  assumes "fst (insert identifier collection record) = [InsertOne doc]"
  shows "(coll_insert_one collection doc = Inl DuplicateKeyError \<longrightarrow>
            snd (insert identifier collection record) = Inl (DuplicateError ''Duplicate record''))
       \<and> snd (insert identifier collection record) \<noteq> Inl (Raw DuplicateKeyError)
       \<and> (coll_insert_one collection doc = Inr stored \<longrightarrow>
            snd (insert identifier collection record) = Inr (record_from_id identifier stored))
       \<and> (coll_insert_one collection doc = Inr stored \<and> identifier = Some i \<and> i \<noteq> []
            \<and> dict_get stored (KStr ''_id'') = Some (PObjectId h) \<longrightarrow>
            (\<exists>r. snd (insert identifier collection record) = Inr r
                 \<and> dict_get r (KStr i) = Some (PStr h)))"
proof -
  have "snd (insert identifier collection record) =
        (case coll_insert_one collection doc of
           Inl DuplicateKeyError \<Rightarrow> Inl (DuplicateError ''Duplicate record'')
         | Inl (OtherBackendError m) \<Rightarrow> Inl (Raw (OtherBackendError m))
         | Inr stored \<Rightarrow> Inr (record_from_id identifier stored))"
    using assms unfolding insert_def
    by (auto simp: Let_def split: option.splits if_splits)
  then show ?thesis
    by (auto simp: record_from_id_shows_key split: sum.splits backend_exn.splits)
qed

theorem insert_duplicate_and_success_witness:
  "insert (Some ''id'') (Collection (\<lambda>d. Inl DuplicateKeyError) (\<lambda>f p. Inr None) (\<lambda>f p ops. Inr []))
     [(KStr ''id'', PStr ''7''), (KStr ''username'', PStr ''bob'')] =
     ([InsertOne [(KStr ''username'', PStr ''bob''), (KStr ''_id'', PStr ''7'')]],
      Inl (DuplicateError ''Duplicate record''))
   \<and> insert (Some ''id'')
       (Collection (\<lambda>d. Inr (dict_set d (KStr ''_id'') (PObjectId ''5f1d'')))
          (\<lambda>f p. Inr None) (\<lambda>f p ops. Inr []))
       [(KStr ''id'', PNone), (KStr ''username'', PStr ''bob'')] =
     ([InsertOne [(KStr ''username'', PStr ''bob'')]],
      Inr [(KStr ''username'', PStr ''bob''), (KStr ''id'', PStr ''5f1d'')])
   \<and> dict_get [(KStr ''username'', PStr ''bob''), (KStr ''id'', PStr ''5f1d'')] (KStr ''id'') =
       Some (PStr ''5f1d'')"
proof -
  let ?dup = "Collection (\<lambda>d. Inl DuplicateKeyError) (\<lambda>f p. Inr None) (\<lambda>f p ops. Inr [])"
  let ?ok = "Collection (\<lambda>d. Inr (dict_set d (KStr ''_id'') (PObjectId ''5f1d'')))
          (\<lambda>f p. Inr None) (\<lambda>f p ops. Inr [])"
  let ?r1 = "[(KStr ''id'', PStr ''7''), (KStr ''username'', PStr ''bob'')]"
  let ?d1 = "[(KStr ''username'', PStr ''bob''), (KStr ''_id'', PStr ''7'')]"
  let ?r2 = "[(KStr ''id'', PNone), (KStr ''username'', PStr ''bob'')]"
  let ?d2 = "[(KStr ''username'', PStr ''bob'')]"
  let ?s2 = "[(KStr ''username'', PStr ''bob''), (KStr ''_id'', PObjectId ''5f1d'')]"
  have t1: "fst (insert (Some ''id'') ?dup ?r1) = [InsertOne ?d1]"
    by (simp add: insert_def record_to_id_def identifier_set_def dict_in_def dict_get_def
        dict_pop_def Let_def)
  have t2: "fst (insert (Some ''id'') ?ok ?r2) = [InsertOne ?d2]"
    by (simp add: insert_def record_to_id_def identifier_set_def dict_in_def dict_get_def
        dict_pop_def Let_def)
  have s2: "coll_insert_one ?ok ?d2 = Inr ?s2"
    by simp
  have e2: "record_from_id (Some ''id'') ?s2 =
      [(KStr ''username'', PStr ''bob''), (KStr ''id'', PStr ''5f1d'')]"
    by (simp add: record_from_id_def stringify_id_def identifier_set_def dict_in_def
        dict_get_def dict_pop_def Let_def)
  have a: "snd (insert (Some ''id'') ?dup ?r1) = Inl (DuplicateError ''Duplicate record'')"
    using insert_duplicate_and_success [OF t1] by simp
  have b: "snd (insert (Some ''id'') ?ok ?r2) =
      Inr [(KStr ''username'', PStr ''bob''), (KStr ''id'', PStr ''5f1d'')]"
    using insert_duplicate_and_success [OF t2, of ?s2] s2 e2 by simp
  have c: "dict_get [(KStr ''username'', PStr ''bob''), (KStr ''id'', PStr ''5f1d'')] (KStr ''id'') =
       Some (PStr ''5f1d'')"
    by (simp add: dict_get_def)
  show ?thesis
    using t1 t2 a b c by (simp add: prod_eq_iff)
qed

subsection \<open>Permissions and tokens\<close>

text \<open>
  C7. \<^verbatim>\<open>generate\<close> gives a user of type \<^verbatim>\<open>service\<close> the four capabilities \<^verbatim>\<open>r\<close>, \<^verbatim>\<open>c\<close>,
  \<^verbatim>\<open>u\<close>, \<^verbatim>\<open>d\<close> on \<^verbatim>\<open>accounts\<close>, \<^verbatim>\<open>highscores\<close> and \<^verbatim>\<open>users\<close>; a user of type \<^verbatim>\<open>guest\<close>
  gets \<^verbatim>\<open>r\<close> and \<^verbatim>\<open>c\<close> on \<^verbatim>\<open>accounts\<close>, \<^verbatim>\<open>r\<close> on \<^verbatim>\<open>highscores\<close> and no scope
  \<^verbatim>\<open>users\<close>, so that \<^verbatim>\<open>check_permission\<close> on \<^verbatim>\<open>users\<close> is false for every required
  capability; for every other type \<^verbatim>\<open>generate\<close> raises
  \<^verbatim>\<open>ValueError('Unknown user type: ...')\<close>.
\<close>

theorem generate_roles:
  "generate \<lparr>username = n, password = p, user_type = ''service'', user_id = i\<rparr> =
     Inr [(''accounts'', [''r'', ''c'', ''u'', ''d'']),
          (''highscores'', [''r'', ''c'', ''u'', ''d'']),
          (''users'', [''r'', ''c'', ''u'', ''d''])]
   \<and> generate \<lparr>username = n, password = p, user_type = ''guest'', user_id = i\<rparr> =
     Inr [(''accounts'', [''r'', ''c'']), (''highscores'', [''r''])]
   \<and> check_permission ''users'' [(''accounts'', [''r'', ''c'']), (''highscores'', [''r''])] required
       = False
   \<and> (t \<noteq> ''service'' \<and> t \<noteq> ''guest'' \<longrightarrow>
        generate \<lparr>username = n, password = p, user_type = t, user_id = i\<rparr> =
          Inl (ValueError (''Unknown user type: '' @ t)))"
  by (simp add: generate_def check_permission_def)

theorem generate_roles_witness:
  "generate \<lparr>username = ''bob'', password = ''x'', user_type = ''admin'', user_id = None\<rparr> =
     Inl (ValueError ''Unknown user type: admin'')
   \<and> check_permission ''users'' [(''accounts'', [''r'', ''c'']), (''highscores'', [''r''])] ''r''
       = False"
  using generate_roles [of "''bob''" "''x''" None "''r''" "''admin''"]
  by simp




end
